theory Spec2Isabelle
  imports Complex_Main "HOL-Library.Multiset" "HOL-Library.Char_ord"
    "HOL-Library.List_Lexorder" "HOL-Library.Product_Lexorder"
begin

section \<open>Electricity usage analyser: the computations of app.py\<close>

text \<open>
  The script reads a CSV of cumulative meter readings into a data frame, spreads the
  difference of consecutive readings evenly over the days between them, sums the daily
  figures per month, prices them, and extrapolates a yearly cost.

  Conventions of the embedding:
  \<^item> a data frame is the list of its rows, in row order;
  \<^item> a \<open>Timestamp\<close> at midnight is the number of its day (days since 1970-01-01), so
    that \<open>(end_date - start_date).days\<close> is integer subtraction and
    \<open>start_date + Timedelta(days=day)\<close> is integer addition;
  \<^item> \<open>float\<close> values are real numbers: the arithmetic of the script is carried out
    exactly, the rounding of IEEE doubles and the values \<open>inf\<close> and \<open>nan\<close> are not
    part of the model (equalities between computed quantities are equalities of the
    exact values);
  \<^item> strings are ASCII;
  \<^item> \<open>sort_values\<close> is the stable insertion sort \<open>sort_key\<close>: rows with equal dates
    keep their relative order;
  \<^item> a raised exception is the \<open>Inl\<close> branch of a sum type.
\<close>

subsection \<open>Data\<close>

datatype error = ParseError | ZeroDivisionError | ValueError | IndexError

text \<open>A row of the frame returned by \<open>load_data\<close>: columns Date, Type, Reading, Reading Source.\<close>

record reading =
  r_date :: int
  r_type :: string
  r_reading :: real
  r_source :: string

text \<open>An entry of \<open>daily_usage_data\<close>: keys Date, Type, Daily Usage (kWh).\<close>

record daily_usage =
  du_date :: int
  du_type :: string
  du_usage :: real

subsection \<open>Reading the CSV (\<open>load_data\<close>, lines 34-41)\<close>

text \<open>
  A row as \<open>read_csv\<close> delivers it when the columns Date, Type and Reading hold text:
  three strings, and the Reading Source cell, which is \<open>None\<close> when the cell is empty.
\<close>

record raw_row =
  raw_date :: string
  raw_type :: string
  raw_reading :: string
  raw_source :: "string option"

text \<open>The ASCII characters that \<open>str.strip()\<close> and \<open>float()\<close> treat as whitespace.\<close>

definition is_space :: "char \<Rightarrow> bool" where
  "is_space c = (c \<in> set [CHR 0x09, CHR 0x0A, CHR 0x0B, CHR 0x0C, CHR 0x0D,
                             CHR 0x1C, CHR 0x1D, CHR 0x1E, CHR 0x1F, CHR 0x20])"

definition str_strip :: "string \<Rightarrow> string" where
  "str_strip s = rev (dropWhile is_space (rev (dropWhile is_space s)))"

text \<open>\<open>.str.replace(',', '')\<close>\<close>

definition str_replace_comma :: "string \<Rightarrow> string" where
  "str_replace_comma s = filter (\<lambda>c. c \<noteq> CHR '','') s"

definition is_digit :: "char \<Rightarrow> bool" where
  "is_digit c = (c \<in> set ''0123456789'')"

text \<open>The value of a digit: its position among the ten digits.\<close>

definition digit_val :: "char \<Rightarrow> nat" where
  "digit_val c = length (takeWhile (\<lambda>d. d \<noteq> c) ''0123456789'')"

definition nat_of_digits :: "string \<Rightarrow> nat" where
  "nat_of_digits ds = foldl (\<lambda>n c. 10 * n + digit_val c) 0 ds"

text \<open>
  The conversion \<open>astype(float)\<close> applies Python's \<open>float\<close> to each string. Its
  grammar for finite values:
  \<^verbatim>\<open>
  digitpart   ::= digit (["_"] digit)*
  number      ::= [digitpart] "." digitpart | digitpart ["."]
  exponent    ::= ("e" | "E") ["+" | "-"] digitpart
  floatvalue  ::= ["+" | "-"] number [exponent]
  \<close>
  with surrounding whitespace ignored. The literals \<open>inf\<close>, \<open>infinity\<close> and \<open>nan\<close>
  denote no real number and are not accepted by the model.
\<close>

text \<open>After a first digit: the digits of \<open>(["_"] digit)*\<close> and the rest of the string.\<close>

fun digits_tail :: "string \<Rightarrow> string \<times> string" where
  "digits_tail (c # d # cs) =
     (if is_digit c then (case digits_tail (d # cs) of (ds, r) \<Rightarrow> (c # ds, r))
      else if c = CHR ''_'' \<and> is_digit d then (case digits_tail cs of (ds, r) \<Rightarrow> (d # ds, r))
      else ([], c # d # cs))"
| "digits_tail [c] = (if is_digit c then ([c], []) else ([], [c]))"
| "digits_tail [] = ([], [])"

definition digitpart :: "string \<Rightarrow> (string \<times> string) option" where
  "digitpart s =
     (case s of
        [] \<Rightarrow> None
      | c # cs \<Rightarrow>
          if is_digit c then (case digits_tail cs of (ds, r) \<Rightarrow> Some (c # ds, r)) else None)"

text \<open>\<open>number\<close>: the integer digits, the fraction digits and the rest.\<close>

definition number :: "string \<Rightarrow> (string \<times> string \<times> string) option" where
  "number s =
     (case digitpart s of
        Some (ip, r) \<Rightarrow>
          (case r of
             c # r' \<Rightarrow>
               if c = CHR ''.'' then
                 (case digitpart r' of
                    Some (fp, r'') \<Rightarrow> Some (ip, fp, r'')
                  | None \<Rightarrow> Some (ip, [], r'))
               else Some (ip, [], r)
           | [] \<Rightarrow> Some (ip, [], r))
      | None \<Rightarrow>
          (case s of
             c # r' \<Rightarrow>
               if c = CHR ''.'' then
                 (case digitpart r' of
                    Some (fp, r'') \<Rightarrow> Some ([], fp, r'')
                  | None \<Rightarrow> None)
               else None
           | [] \<Rightarrow> None))"

definition strip_sign :: "string \<Rightarrow> bool \<times> string" where
  "strip_sign s =
     (case s of
        c # r \<Rightarrow> if c = CHR ''-'' then (True, r) else if c = CHR ''+'' then (False, r)
                  else (False, s)
      | [] \<Rightarrow> (False, s))"

text \<open>\<open>[exponent]\<close>: the exponent (0 when absent) and the rest; \<open>None\<close> when an
  \<open>e\<close> is not followed by digits.\<close>

definition exponent :: "string \<Rightarrow> (int \<times> string) option" where
  "exponent s =
     (case s of
        c # r \<Rightarrow>
          if c = CHR ''e'' \<or> c = CHR ''E'' then
            (case strip_sign r of
               (neg, r') \<Rightarrow>
                 (case digitpart r' of
                    Some (ds, r'') \<Rightarrow>
                      Some (if neg then - int (nat_of_digits ds) else int (nat_of_digits ds), r'')
                  | None \<Rightarrow> None))
          else Some (0, s)
      | [] \<Rightarrow> Some (0, s))"

definition float_of_str :: "string \<Rightarrow> real option" where
  "float_of_str s =
     (case strip_sign (str_strip s) of
        (neg, s1) \<Rightarrow>
          (case number s1 of
             None \<Rightarrow> None
           | Some (ip, fp, s2) \<Rightarrow>
               (case exponent s2 of
                  None \<Rightarrow> None
                | Some (e, s3) \<Rightarrow>
                    if s3 = [] then
                      Some ((if neg then - 1 else 1) * of_nat (nat_of_digits (ip @ fp))
                            * 10 powi (e - int (length fp)))
                    else None)))"

text \<open>
  \<open>df['Reading'].str.replace(',', '').str.strip().astype(float)\<close> on one cell: commas
  are removed, surrounding whitespace is stripped, the rest is converted; a string that
  is not a number raises.
\<close>

definition clean_reading :: "string \<Rightarrow> string" where
  "clean_reading s = str_strip (str_replace_comma s)"


text \<open>
  Calendar dates. \<open>days_from_civil y m d\<close> is the day number of the date, counted from
  1970-01-01 in the proleptic Gregorian calendar; \<open>civil_from_days\<close> computes year,
  month and day of a day number.
\<close>

definition days_from_civil :: "int \<Rightarrow> int \<Rightarrow> int \<Rightarrow> int" where
  "days_from_civil y m d =
     (let y' = (if m \<le> 2 then y - 1 else y);
          era = y' div 400;
          yoe = y' - era * 400;
          doy = (153 * (if m > 2 then m - 3 else m + 9) + 2) div 5 + d - 1;
          doe = yoe * 365 + yoe div 4 - yoe div 100 + doy
      in era * 146097 + doe - 719468)"

definition civil_from_days :: "int \<Rightarrow> int \<times> int \<times> int" where
  "civil_from_days z0 =
     (let z = z0 + 719468;
          era = z div 146097;
          doe = z - era * 146097;
          yoe = (doe - doe div 1460 + doe div 36524 - doe div 146096) div 365;
          doy = doe - (365 * yoe + yoe div 4 - yoe div 100);
          mp = (5 * doy + 2) div 153;
          d = doy - (153 * mp + 2) div 5 + 1;
          m = (if mp < 10 then mp + 3 else mp - 9);
          y = yoe + era * 400
      in (if m \<le> 2 then y + 1 else y, m, d))"

definition is_leap :: "int \<Rightarrow> bool" where
  "is_leap y = (y mod 4 = 0 \<and> (y mod 100 \<noteq> 0 \<or> y mod 400 = 0))"

definition month_length :: "int \<Rightarrow> int \<Rightarrow> int" where
  "month_length y m =
     (if m = 2 then (if is_leap y then 29 else 28)
      else if m = 4 \<or> m = 6 \<or> m = 9 \<or> m = 11 then 30 else 31)"

text \<open>The fields of a string separated by \<open>/\<close>.\<close>

fun split_slash :: "string \<Rightarrow> string list" where
  "split_slash [] = [[]]"
| "split_slash (c # cs) =
     (if c = CHR ''/'' then [] # split_slash cs
      else (case split_slash cs of f # fs \<Rightarrow> (c # f) # fs | [] \<Rightarrow> [[c]]))"

text \<open>
  The directives of the format \<open>%d/%m/%Y\<close>: \<open>%d\<close> is a day 1..31 written with one or
  two digits (or a space and a digit), \<open>%m\<close> a month 1..12 written with one or two
  digits, \<open>%Y\<close> a year of exactly four digits.
\<close>

definition day_field :: "string \<Rightarrow> int option" where
  "day_field f =
     (case f of
        [c] \<Rightarrow> if is_digit c \<and> c \<noteq> CHR ''0'' then Some (int (digit_val c)) else None
      | [c, d] \<Rightarrow>
          if c = CHR '' '' \<and> is_digit d \<and> d \<noteq> CHR ''0'' then Some (int (digit_val d))
          else if is_digit c \<and> is_digit d \<and> 1 \<le> nat_of_digits [c, d] \<and> nat_of_digits [c, d] \<le> 31
          then Some (int (nat_of_digits [c, d])) else None
      | _ \<Rightarrow> None)"

definition month_field :: "string \<Rightarrow> int option" where
  "month_field f =
     (case f of
        [c] \<Rightarrow> if is_digit c \<and> c \<noteq> CHR ''0'' then Some (int (digit_val c)) else None
      | [c, d] \<Rightarrow>
          if is_digit c \<and> is_digit d \<and> 1 \<le> nat_of_digits [c, d] \<and> nat_of_digits [c, d] \<le> 12
          then Some (int (nat_of_digits [c, d])) else None
      | _ \<Rightarrow> None)"

definition year_field :: "string \<Rightarrow> int option" where
  "year_field f =
     (if length f = 4 \<and> list_all is_digit f then Some (int (nat_of_digits f)) else None)"

text \<open>
  \<open>pd.to_datetime(s, format='%d/%m/%Y')\<close> on one cell: the whole string has to match
  the format and name a day that exists. (The limits of the range of \<open>Timestamp\<close> are
  not modelled.)
\<close>

definition to_datetime :: "string \<Rightarrow> int option" where
  "to_datetime s =
     (case split_slash s of
        [df, mf, yf] \<Rightarrow>
          (case (day_field df, month_field mf, year_field yf) of
             (Some d, Some m, Some y) \<Rightarrow>
               if 1 \<le> y \<and> d \<le> month_length y m then Some (days_from_civil y m d) else None
           | _ \<Rightarrow> None)
      | _ \<Rightarrow> None)"

text \<open>Converting a whole column: the first cell that does not convert raises.\<close>

fun convert_column :: "('a \<Rightarrow> 'b option) \<Rightarrow> 'a list \<Rightarrow> error + 'b list" where
  "convert_column f [] = Inr []"
| "convert_column f (x # xs) =
     (case f x of
        None \<Rightarrow> Inl ParseError
      | Some v \<Rightarrow> (case convert_column f xs of Inl e \<Rightarrow> Inl e | Inr vs \<Rightarrow> Inr (v # vs)))"

text \<open>\<open>fillna('manual')\<close> on one cell.\<close>

definition fillna_manual :: "string option \<Rightarrow> string" where
  "fillna_manual c = (case c of None \<Rightarrow> ''manual'' | Some s \<Rightarrow> s)"

definition load_data :: "raw_row list \<Rightarrow> error + reading list" where
  "load_data rows =
     (case convert_column float_of_str (map (\<lambda>row. clean_reading (raw_reading row)) rows) of
        Inl e \<Rightarrow> Inl e
      | Inr readings \<Rightarrow>
          (case convert_column to_datetime (map raw_date rows) of
             Inl e \<Rightarrow> Inl e
           | Inr dates \<Rightarrow>
               Inr (sort_key r_date
                      (map (\<lambda>(row, v, d).
                              \<lparr>r_date = d, r_type = raw_type row, r_reading = v,
                               r_source = fillna_manual (raw_source row)\<rparr>)
                           (zip rows (zip readings dates))))))"

subsection \<open>Library operations used by the script\<close>

text \<open>\<open>Series.unique()\<close>: the distinct values in order of first appearance.\<close>

fun unique :: "'a list \<Rightarrow> 'a list" where
  "unique [] = []"
| "unique (x # xs) = x # unique (removeAll x xs)"

text \<open>\<open>range(n)\<close> for an integer \<open>n\<close>: empty when \<open>n \<le> 0\<close>.\<close>

definition py_range :: "int \<Rightarrow> int list" where
  "py_range n = [0..n - 1]"

text \<open>Division of a float by an integer; a zero divisor is an error branch.\<close>

definition py_div :: "real \<Rightarrow> int \<Rightarrow> error + real" where
  "py_div a b = (if b = 0 then Inl ZeroDivisionError else Inr (a / of_int b))"

subsection \<open>Interpolation of daily usage (lines 93-110)\<close>

text \<open>\<open>type_df = df[df['Type'] == reading_type].sort_values('Date')\<close>\<close>

definition type_df :: "reading list \<Rightarrow> string \<Rightarrow> reading list" where
  "type_df df reading_type = sort_key r_date (filter (\<lambda>r. r_type r = reading_type) df)"

text \<open>
  The body of the loop \<open>for i in range(1, len(type_df))\<close> at one index: \<open>prev\<close> is
  \<open>type_df.iloc[i-1]\<close>, \<open>cur\<close> is \<open>type_df.iloc[i]\<close>; the result is the list of entries
  appended by the inner loop over \<open>range(days_diff)\<close>.
\<close>

definition daily_avg_of :: "real \<Rightarrow> int \<Rightarrow> error + real" where
  "daily_avg_of reading_diff days_diff =
     (if days_diff > 0 then py_div reading_diff days_diff else Inr 0)"

definition interval_points :: "string \<Rightarrow> reading \<Rightarrow> reading \<Rightarrow> error + daily_usage list" where
  "interval_points reading_type prev cur =
     (let start_date = r_date prev;
          end_date = r_date cur;
          days_diff = end_date - start_date;
          reading_diff = r_reading cur - r_reading prev
      in case daily_avg_of reading_diff days_diff of
           Inl e \<Rightarrow> Inl e
         | Inr daily_avg \<Rightarrow>
             Inr (map (\<lambda>day. \<lparr>du_date = start_date + day, du_type = reading_type,
                                du_usage = daily_avg\<rparr>)
                      (py_range days_diff)))"

text \<open>The loop over the consecutive pairs of one type's rows.\<close>

fun type_points :: "string \<Rightarrow> reading list \<Rightarrow> error + daily_usage list" where
  "type_points reading_type (prev # cur # rest) =
     (case interval_points reading_type prev cur of
        Inl e \<Rightarrow> Inl e
      | Inr ps \<Rightarrow>
          (case type_points reading_type (cur # rest) of
             Inl e \<Rightarrow> Inl e
           | Inr qs \<Rightarrow> Inr (ps @ qs)))"
| "type_points reading_type [r] = Inr []"
| "type_points reading_type [] = Inr []"

text \<open>The outer loop \<open>for reading_type in df['Type'].unique()\<close>.\<close>

fun types_loop :: "reading list \<Rightarrow> string list \<Rightarrow> error + daily_usage list" where
  "types_loop df [] = Inr []"
| "types_loop df (reading_type # ts) =
     (case type_points reading_type (type_df df reading_type) of
        Inl e \<Rightarrow> Inl e
      | Inr ps \<Rightarrow>
          (case types_loop df ts of
             Inl e \<Rightarrow> Inl e
           | Inr qs \<Rightarrow> Inr (ps @ qs)))"

definition daily_usage_data :: "reading list \<Rightarrow> error + daily_usage list" where
  "daily_usage_data df = types_loop df (unique (map r_type df))"

subsection \<open>Monthly totals (lines 112-129)\<close>

text \<open>A number written with \<open>w\<close> decimal digits, zero-padded.\<close>

fun dec_digits :: "nat \<Rightarrow> nat \<Rightarrow> string" where
  "dec_digits 0 n = []"
| "dec_digits (Suc w) n = dec_digits w (n div 10) @ [''0123456789'' ! (n mod 10)]"

text \<open>\<open>dt.to_period('M').astype(str)\<close>: the key \<open>YYYY-MM\<close> of the month of a day.\<close>

definition year_month :: "int \<Rightarrow> string" where
  "year_month d =
     (case civil_from_days d of
        (y, m, _) \<Rightarrow> dec_digits 4 (nat y) @ ''-'' @ dec_digits 2 (nat m))"

text \<open>A row of \<open>monthly_total\<close>: columns Month, Type, Total Usage (kWh), Days.\<close>

record monthly_row =
  mt_month :: string
  mt_type :: string
  mt_total :: real
  mt_days :: nat

text \<open>
  \<open>groupby(['Year-Month', 'Type'])['Daily Usage (kWh)'].sum().reset_index()\<close>: one row
  for each key that occurs, in the order of the keys, with the sum of the group.
\<close>

definition groupby_sum :: "daily_usage list \<Rightarrow> (string \<times> string \<times> real) list" where
  "groupby_sum daily =
     map (\<lambda>(m, t).
            (m, t, sum_list (map du_usage
                     (filter (\<lambda>p. year_month (du_date p) = m \<and> du_type p = t) daily))))
         (sort (remdups (map (\<lambda>p. (year_month (du_date p), du_type p)) daily)))"

text \<open>\<open>groupby('Year-Month')['Date'].nunique().reset_index()\<close>\<close>

definition days_per_month :: "daily_usage list \<Rightarrow> (string \<times> nat) list" where
  "days_per_month daily =
     map (\<lambda>m. (m, length (remdups (map du_date
                       (filter (\<lambda>p. year_month (du_date p) = m) daily)))))
         (sort (remdups (map (\<lambda>p. year_month (du_date p)) daily)))"

text \<open>\<open>monthly_total.merge(days_per_month, on='Month')\<close>: the inner join on the month.\<close>

definition merge_days :: "(string \<times> string \<times> real) list \<Rightarrow> (string \<times> nat) list \<Rightarrow> monthly_row list" where
  "merge_days totals dpm =
     concat (map (\<lambda>(m, t, u).
                    map (\<lambda>(m', n). \<lparr>mt_month = m, mt_type = t, mt_total = u, mt_days = n\<rparr>)
                        (filter (\<lambda>(m', n). m' = m) dpm))
                 totals)"

text \<open>
  The frame \<open>monthly_total\<close> after line 129. The sort by \<open>Sort_Date\<close> (the first day
  of the month) is the sort by the month key.
\<close>

definition monthly_total :: "daily_usage list \<Rightarrow> monthly_row list" where
  "monthly_total daily =
     merge_days (sort_key (\<lambda>(m, t, u). m) (groupby_sum daily)) (days_per_month daily)"

subsection \<open>Tariff plans and the monthly cost annotations (lines 16-31, 148-165)\<close>

record plan =
  anytime_rate :: real
  controlled_load_rate :: real
  solar_feed_in :: real
  supply_daily_charge :: real
  controlled_load_supply_daily_charge :: real

text \<open>
  \<open>load_current_plan\<close>: the content of \<open>current_plan.json\<close> when the file exists
  (\<open>Some\<close>), the default values otherwise.
\<close>

definition load_current_plan :: "plan option \<Rightarrow> plan" where
  "load_current_plan config_file =
     (case config_file of
        Some p \<Rightarrow> p
      | None \<Rightarrow>
          \<lparr>anytime_rate = 25, controlled_load_rate = 18, solar_feed_in = 8,
           supply_daily_charge = 12 / 10, controlled_load_supply_daily_charge = 5 / 10\<rparr>)"

text \<open>\<open>month_data[month_data['Type'] == t]['Total Usage (kWh)'].sum()\<close>\<close>

definition usage_of_type :: "monthly_row list \<Rightarrow> string \<Rightarrow> real" where
  "usage_of_type month_data t =
     sum_list (map mt_total (filter (\<lambda>row. mt_type row = t) month_data))"

text \<open>The body of the loop over the months, for the rows \<open>month_data\<close> of one month;
  \<open>iloc[0]\<close> raises on an empty frame.\<close>

definition month_cost :: "plan \<Rightarrow> monthly_row list \<Rightarrow> error + real" where
  "month_cost current_plan month_data =
     (case month_data of
        [] \<Rightarrow> Inl IndexError
      | row # _ \<Rightarrow>
          (let days_in_month = mt_days row;
               anytime_usage = usage_of_type month_data ''anytime'';
               cl_usage = usage_of_type month_data ''controlled load'';
               solar_usage = usage_of_type month_data ''solar'';
               anytime_cost = anytime_usage * (anytime_rate current_plan / 100);
               cl_cost = cl_usage * (controlled_load_rate current_plan / 100);
               solar_credit = solar_usage * (solar_feed_in current_plan / 100);
               supply_cost = (supply_daily_charge current_plan
                              + controlled_load_supply_daily_charge current_plan)
                             * of_nat days_in_month;
               total_cost = anytime_cost + cl_cost + supply_cost - solar_credit
           in Inr total_cost))"

fun monthly_costs_loop :: "plan \<Rightarrow> monthly_row list \<Rightarrow> string list \<Rightarrow> error + (string \<times> real) list" where
  "monthly_costs_loop current_plan mt [] = Inr []"
| "monthly_costs_loop current_plan mt (month # months) =
     (case month_cost current_plan (filter (\<lambda>row. mt_month row = month) mt) of
        Inl e \<Rightarrow> Inl e
      | Inr total_cost \<Rightarrow>
          (case monthly_costs_loop current_plan mt months of
             Inl e \<Rightarrow> Inl e
           | Inr cs \<Rightarrow> Inr ((month, total_cost) # cs)))"

definition monthly_costs :: "plan \<Rightarrow> monthly_row list \<Rightarrow> error + (string \<times> real) list" where
  "monthly_costs current_plan mt = monthly_costs_loop current_plan mt (unique (map mt_month mt))"

subsection \<open>Annual cost estimation (\<open>calculate_annual_costs\<close>, lines 218-254)\<close>

text \<open>The returned dictionary. \<open>days_in_data\<close> is \<open>None\<close> when it is \<open>nan\<close>, which
  happens only for a frame without rows (its minimal and maximal dates are \<open>NaT\<close>).\<close>

record annual_costs =
  ac_anytime_usage :: real
  ac_cl_usage :: real
  ac_solar_usage :: real
  ac_anytime_cost :: real
  ac_cl_cost :: real
  ac_solar_credit :: real
  ac_supply_cost :: real
  ac_total_cost :: real
  ac_days_in_data :: "int option"

text \<open>\<open>annual_usage.get(key, 0)\<close>\<close>

definition dict_get :: "('k \<rightharpoonup> real) \<Rightarrow> 'k \<Rightarrow> real" where
  "dict_get d k = (case d k of None \<Rightarrow> 0 | Some v \<Rightarrow> v)"

text \<open>The loop \<open>for reading_type in df['Type'].unique()\<close> that fills \<open>annual_usage\<close>.\<close>

fun annual_usage_loop :: "reading list \<Rightarrow> int \<Rightarrow> string list \<Rightarrow> (string \<rightharpoonup> real) \<Rightarrow> error + (string \<rightharpoonup> real)" where
  "annual_usage_loop df days_in_data [] annual_usage = Inr annual_usage"
| "annual_usage_loop df days_in_data (reading_type # ts) annual_usage =
     (let tdf = type_df df reading_type in
      if length tdf \<ge> 2 then
        (let total_usage = r_reading (last tdf) - r_reading (hd tdf) in
         case py_div total_usage days_in_data of
           Inl e \<Rightarrow> Inl e
         | Inr q \<Rightarrow> annual_usage_loop df days_in_data ts (annual_usage(reading_type \<mapsto> q * 365)))
      else annual_usage_loop df days_in_data ts annual_usage)"

text \<open>Lines 236-254: the costs and the returned dictionary. (The parameter
  \<open>anytime_rate\<close> of the function is written \<open>anytime_rate'\<close>.)\<close>

definition cost_summary :: "(string \<rightharpoonup> real) \<Rightarrow> real \<Rightarrow> real \<Rightarrow> real \<Rightarrow> real \<Rightarrow> real \<Rightarrow> int option \<Rightarrow> annual_costs" where
  "cost_summary annual_usage anytime_rate' cl_rate solar_rate supply_charge cl_supply_charge days =
     (let anytime_cost = dict_get annual_usage ''anytime'' * (anytime_rate' / 100);
          cl_cost = dict_get annual_usage ''controlled load'' * (cl_rate / 100);
          solar_credit = dict_get annual_usage ''solar'' * (solar_rate / 100);
          supply_cost = (supply_charge + cl_supply_charge) * 365;
          total_cost = anytime_cost + cl_cost + supply_cost - solar_credit
      in \<lparr>ac_anytime_usage = dict_get annual_usage ''anytime'',
          ac_cl_usage = dict_get annual_usage ''controlled load'',
          ac_solar_usage = dict_get annual_usage ''solar'',
          ac_anytime_cost = anytime_cost,
          ac_cl_cost = cl_cost,
          ac_solar_credit = solar_credit,
          ac_supply_cost = supply_cost,
          ac_total_cost = total_cost,
          ac_days_in_data = days\<rparr>)"

text \<open>
  The function, with the frame \<open>df\<close> of the enclosing scope as first argument. On a
  frame without rows no type is visited and every usage is 0.
\<close>

definition calculate_annual_costs :: "reading list \<Rightarrow> real \<Rightarrow> real \<Rightarrow> real \<Rightarrow> real \<Rightarrow> real \<Rightarrow> error + annual_costs option" where
  "calculate_annual_costs df anytime_rate' cl_rate solar_rate supply_charge cl_supply_charge =
     (case map r_date df of
        [] \<Rightarrow>
          Inr (Some (cost_summary Map.empty anytime_rate' cl_rate solar_rate supply_charge
                       cl_supply_charge None))
      | d # ds \<Rightarrow>
          (let min_date = fold min ds d;
               max_date = fold max ds d;
               days_in_data = max_date - min_date
           in if days_in_data = 0 then Inr None
              else
                (case annual_usage_loop df days_in_data (unique (map r_type df)) Map.empty of
                   Inl e \<Rightarrow> Inl e
                 | Inr annual_usage \<Rightarrow>
                     Inr (Some (cost_summary annual_usage anytime_rate' cl_rate solar_rate
                                  supply_charge cl_supply_charge (Some days_in_data))))))"

subsection \<open>The script\<close>

text \<open>The values of the ten \<open>number_input\<close> widgets of the cost tab.\<close>

record session_inputs =
  current_anytime :: real
  current_cl :: real
  current_solar :: real
  current_supply :: real
  current_cl_supply :: real
  comp_anytime :: real
  comp_cl :: real
  comp_solar :: real
  comp_supply :: real
  comp_cl_supply :: real

record app_output =
  out_monthly_costs :: "(string \<times> real) list"
  out_current_calc :: "annual_costs option"
  out_comp_calc :: "annual_costs option"

text \<open>
  One run of the script on an uploaded file: the plan is loaded, the file is read (the
  success banner formats the first and last date, which raises on a frame without
  rows), the monthly cost annotations are computed when there is daily usage, and the
  cost tab evaluates \<open>calculate_annual_costs\<close> on the current and on the comparison
  inputs.
\<close>

definition app :: "plan option \<Rightarrow> raw_row list \<Rightarrow> session_inputs \<Rightarrow> error + app_output" where
  "app config_file uploaded_file inputs =
     (let current_plan = load_current_plan config_file in
      case load_data uploaded_file of
        Inl e \<Rightarrow> Inl e
      | Inr df \<Rightarrow>
          if df = [] then Inl ValueError
          else
            (case daily_usage_data df of
               Inl e \<Rightarrow> Inl e
             | Inr daily \<Rightarrow>
                 (case (if daily \<noteq> [] then monthly_costs current_plan (monthly_total daily)
                        else Inr []) of
                    Inl e \<Rightarrow> Inl e
                  | Inr costs \<Rightarrow>
                      (case calculate_annual_costs df (current_anytime inputs) (current_cl inputs)
                              (current_solar inputs) (current_supply inputs)
                              (current_cl_supply inputs) of
                         Inl e \<Rightarrow> Inl e
                       | Inr current_calc \<Rightarrow>
                           (case calculate_annual_costs df (comp_anytime inputs) (comp_cl inputs)
                                   (comp_solar inputs) (comp_supply inputs)
                                   (comp_cl_supply inputs) of
                              Inl e \<Rightarrow> Inl e
                            | Inr comp_calc \<Rightarrow>
                                Inr \<lparr>out_monthly_costs = costs,
                                     out_current_calc = current_calc,
                                     out_comp_calc = comp_calc\<rparr>)))))"

subsection \<open>Notions used in the statements\<close>



text \<open>
  The annual projection of a type in the words of the specification: the difference of
  the last and the first reading of the type, divided by the days between the first and
  the last date of the file, times 365; zero usage for a type with fewer than two
  readings.
\<close>

definition spec_annual_projection :: "reading list \<Rightarrow> string \<Rightarrow> real" where
  "spec_annual_projection df t =
     (if length (type_df df t) \<ge> 2
      then (r_reading (last (type_df df t)) - r_reading (hd (type_df df t)))
           / of_int (Max (r_date ` set df) - Min (r_date ` set df)) * 365
      else 0)"

subsection \<open>Example data\<close>

text \<open>
  Two readings of type anytime, 1000 on 01/01/2024 (day 19723) and 1300 on 31/01/2024
  (day 19753), and a second reading of 1010 on 01/01/2024.
\<close>

definition jan_first :: reading where
  "jan_first = \<lparr>r_date = 19723, r_type = ''anytime'', r_reading = 1000, r_source = ''manual''\<rparr>"

definition jan_last :: reading where
  "jan_last = \<lparr>r_date = 19753, r_type = ''anytime'', r_reading = 1300, r_source = ''manual''\<rparr>"

definition jan_first_again :: reading where
  "jan_first_again = \<lparr>r_date = 19723, r_type = ''anytime'', r_reading = 1010, r_source = ''bill''\<rparr>"



definition two_day_file :: "raw_row list" where
  "two_day_file =
     [\<lparr>raw_date = ''01/01/2024'', raw_type = ''anytime'', raw_reading = ''1,000'',
       raw_source = None\<rparr>,
      \<lparr>raw_date = ''03/01/2024'', raw_type = ''anytime'', raw_reading = ''1,020'',
       raw_source = Some ''bill''\<rparr>]"

text \<open>The month of January with 300 kWh of type anytime on 30 days, and the initial
  values of the input widgets.\<close>

definition january_month :: "monthly_row list" where
  "january_month = [\<lparr>mt_month = ''2024-01'', mt_type = ''anytime'', mt_total = 300, mt_days = 30\<rparr>]"

definition default_inputs :: session_inputs where
  "default_inputs =
     \<lparr>current_anytime = 25, current_cl = 18, current_solar = 8, current_supply = 12 / 10,
      current_cl_supply = 5 / 10, comp_anytime = 23, comp_cl = 17, comp_solar = 10,
      comp_supply = 11 / 10, comp_cl_supply = 45 / 100\<rparr>"

section \<open>Properties\<close>

subsection \<open>Interpolation\<close>


lemma map_add_upto: "map (\<lambda>day. a + day) [0..n] = [a..a + n]"
proof (induction "nat (n + 1)" arbitrary: n)
  case 0 then show ?case by simp
next
  case (Suc k)
  then have n0: "0 \<le> n" by linarith
  have "k = nat ((n - 1) + 1)" using Suc by linarith
  from Suc(1)[OF this] have IH: "map (\<lambda>day. a + day) [0..n - 1] = [a..a + (n - 1)]" .
  have 1: "[0..n] = [0..n - 1] @ [n]" using n0 by (simp add: upto_rec2)
  have 2: "[a..a + n] = [a..a + (n - 1)] @ [a + n]" using n0 upto_rec2[of a "a + n"] by (simp add: add_diff_eq)
  show ?case unfolding 1 2 using IH by simp
qed

lemma map_shift_upto: "map (\<lambda>day. f (a + day)) [0..b - a - 1] = map f [a..b - 1]"
proof -
  have "map (\<lambda>day. a + day) [0..b - a - 1] = [a..b - 1]"
    using map_add_upto[of a "b - a - 1"] by (simp add: algebra_simps)
  then have "map f (map (\<lambda>day. a + day) [0..b - a - 1]) = map f [a..b - 1]" by simp
  then show ?thesis by (simp add: o_def)
qed

lemma interval_points_Inr:
  "interval_points t prev cur =
     Inr (map (\<lambda>d. \<lparr>du_date = d, du_type = t,
                     du_usage = (if r_date cur - r_date prev > 0
                                 then (r_reading cur - r_reading prev) / of_int (r_date cur - r_date prev)
                                 else 0)\<rparr>)
              [r_date prev..r_date cur - 1])"
proof -
  define avg where "avg = (if r_date cur - r_date prev > 0
      then (r_reading cur - r_reading prev) / of_int (r_date cur - r_date prev) else 0)"
  have a: "daily_avg_of (r_reading cur - r_reading prev) (r_date cur - r_date prev) = Inr avg"
    by (simp add: daily_avg_of_def py_div_def avg_def)
  have "interval_points t prev cur =
      Inr (map (\<lambda>day. \<lparr>du_date = r_date prev + day, du_type = t, du_usage = avg\<rparr>)
             [0..r_date cur - r_date prev - 1])"
    by (simp add: interval_points_def Let_def a py_range_def)
  also have "map (\<lambda>day. \<lparr>du_date = r_date prev + day, du_type = t, du_usage = avg\<rparr>)
             [0..r_date cur - r_date prev - 1]
           = map (\<lambda>d. \<lparr>du_date = d, du_type = t, du_usage = avg\<rparr>) [r_date prev..r_date cur - 1]"
    by (rule map_shift_upto)
  finally show ?thesis by (simp only: avg_def)
qed


lemma interval_points_total: "\<exists>ps. interval_points t prev cur = Inr ps"
  by (simp add: interval_points_Inr)

lemma type_points_total: "\<exists>ps. type_points t rs = Inr ps"
proof (induction t rs rule: type_points.induct)
  case (1 t prev cur rest)
  obtain ps where ps: "interval_points t prev cur = Inr ps"
    using interval_points_total by blast
  from 1(1)[OF ps] obtain qs where "type_points t (cur # rest) = Inr qs" by blast
  with ps show ?case by simp
qed simp_all

lemma type_points_Inr: "type_points t rs = Inr (projr (type_points t rs))"
  using type_points_total[of t rs] by auto

lemma type_points_step:
  "projr (type_points t (prev # cur # rest)) =
     projr (interval_points t prev cur) @ projr (type_points t (cur # rest))"
proof -
  obtain ps where ps: "interval_points t prev cur = Inr ps"
    using interval_points_total by blast
  obtain qs where qs: "type_points t (cur # rest) = Inr qs"
    using type_points_total by blast
  show ?thesis by (simp add: ps qs)
qed

lemma interval_points_dates:
  "map du_date (projr (interval_points t prev cur)) = [r_date prev..r_date cur - 1]"
  by (simp add: interval_points_Inr o_def)

lemma interval_points_types:
  "p \<in> set (projr (interval_points t prev cur)) \<Longrightarrow> du_type p = t"
  by (auto simp: interval_points_Inr)

lemma upto_append: "(a::int) \<le> b \<Longrightarrow> b \<le> c \<Longrightarrow> [a..b - 1] @ [b..c - 1] = [a..c - 1]"
proof (cases "a = b")
  case True
  then show ?thesis by simp
next
  case False
  assume "a \<le> b" "b \<le> c"
  with False have "a \<le> b - 1" "b - 1 \<le> c - 1" by linarith+
  from upto_split2[OF this] show ?thesis by simp
qed

lemma type_points_dates:
  "sorted (map r_date rs) \<Longrightarrow> rs \<noteq> [] \<Longrightarrow>
   map du_date (projr (type_points t rs)) = [r_date (hd rs)..r_date (last rs) - 1]"
proof (induction t rs rule: type_points.induct)
  case (1 t prev cur rest)
  have s: "sorted (map r_date (cur # rest))" using 1(2) by simp
  have le1: "r_date prev \<le> r_date cur" using 1(2) by simp
  have le2: "r_date cur \<le> r_date (last (cur # rest))"
    using s by (cases rest rule: rev_cases) (auto simp: sorted_append)
  obtain ps where ps: "interval_points t prev cur = Inr ps"
    using interval_points_total by blast
  have IH: "map du_date (projr (type_points t (cur # rest))) = [r_date cur..r_date (last (cur # rest)) - 1]"
    using 1(1)[OF ps s] by simp
  show ?case
    using upto_append[OF le1 le2]
    by (simp only: type_points_step map_append interval_points_dates IH list.sel last.simps) simp
qed simp_all

lemma type_points_types:
  "p \<in> set (projr (type_points t rs)) \<Longrightarrow> du_type p = t"
proof (induction t rs arbitrary: p rule: type_points.induct)
  case (1 t prev cur rest)
  obtain ps where ps: "interval_points t prev cur = Inr ps"
    using interval_points_total by blast
  from 1(2) have "p \<in> set (projr (interval_points t prev cur)) \<or> p \<in> set (projr (type_points t (cur # rest)))"
    by (simp only: type_points_step set_append Un_iff)
  then show ?case using interval_points_types 1(1)[OF ps] by blast
qed simp_all


lemma set_unique: "set (unique xs) = set xs"
  by (induction xs rule: unique.induct) auto

lemma distinct_unique: "distinct (unique xs)"
  by (induction xs rule: unique.induct) (auto simp: set_unique)

lemma types_loop_total: "\<exists>ps. types_loop df ts = Inr ps"
proof (induction ts)
  case (Cons t ts)
  then obtain qs where "types_loop df ts = Inr qs" by blast
  moreover obtain ps where "type_points t (type_df df t) = Inr ps"
    using type_points_total by blast
  ultimately show ?case by simp
qed simp

lemma types_loop_step:
  "projr (types_loop df (t # ts)) =
     projr (type_points t (type_df df t)) @ projr (types_loop df ts)"
proof -
  obtain ps where ps: "type_points t (type_df df t) = Inr ps"
    using type_points_total by blast
  obtain qs where qs: "types_loop df ts = Inr qs"
    using types_loop_total by blast
  show ?thesis by (simp add: ps qs)
qed

lemma filter_type_points:
  "filter (\<lambda>p. du_type p = t) (projr (type_points u rs)) =
     (if u = t then projr (type_points u rs) else [])"
  using type_points_types[of _ u rs] by (auto simp: filter_empty_conv filter_id_conv)

lemma types_loop_filter:
  "distinct ts \<Longrightarrow>
   filter (\<lambda>p. du_type p = t) (projr (types_loop df ts)) =
     (if t \<in> set ts then projr (type_points t (type_df df t)) else [])"
proof (induction ts)
  case Nil
  then show ?case by simp
next
  case (Cons u ts)
  then show ?case
    by (auto simp only: types_loop_step filter_append filter_type_points distinct.simps
        list.set insert_iff append_Nil append_Nil2 split: if_splits)
qed

lemma type_df_empty: "t \<notin> r_type ` set df \<Longrightarrow> type_df df t = []"
proof -
  assume "t \<notin> r_type ` set df"
  then have "filter (\<lambda>r. r_type r = t) df = []"
    by (auto simp: filter_empty_conv)
  then show ?thesis by (simp add: type_df_def)
qed

lemma daily_usage_data_total: "\<exists>ps. daily_usage_data df = Inr ps"
  by (simp add: daily_usage_data_def types_loop_total)

lemma daily_usage_data_filter:
  "filter (\<lambda>p. du_type p = t) (projr (daily_usage_data df)) =
     projr (type_points t (type_df df t))"
proof (cases "t \<in> r_type ` set df")
  case True
  then show ?thesis
    by (simp add: daily_usage_data_def types_loop_filter distinct_unique set_unique)
next
  case False
  then show ?thesis
    by (simp add: daily_usage_data_def types_loop_filter distinct_unique set_unique type_df_empty)
qed

lemma sorted_type_df: "sorted (map r_date (type_df df t))"
  by (simp add: type_df_def)


lemma type_points_append:
  "projr (type_points t (pre @ a # b # post)) =
     projr (type_points t (pre @ [a])) @ projr (interval_points t a b) @
     projr (type_points t (b # post))"
proof (induction pre)
  case Nil
  show ?case by (simp only: append_Nil type_points_step) simp
next
  case (Cons x pre)
  show ?case
  proof (cases pre)
    case Nil
    show ?thesis
      unfolding Nil by (simp only: append_Cons append_Nil type_points_step append_assoc) simp
  next
    case (Cons y ys)
    have "projr (type_points t ((x # pre) @ a # b # post)) =
          projr (interval_points t x y) @ projr (type_points t (pre @ a # b # post))"
      unfolding Cons by (simp only: append_Cons type_points_step)
    moreover have "projr (type_points t ((x # pre) @ [a])) =
          projr (interval_points t x y) @ projr (type_points t (pre @ [a]))"
      unfolding Cons by (simp only: append_Cons type_points_step)
    ultimately show ?thesis using Cons.IH by simp
  qed
qed

lemma filter_dates_empty:
  "(\<And>d. d \<in> set (map du_date ps) \<Longrightarrow> \<not> (lo \<le> d \<and> d < hi)) \<Longrightarrow>
   filter (\<lambda>p. lo \<le> du_date p \<and> du_date p < hi) ps = []"
  by (auto simp: filter_empty_conv)

lemma filter_dates_all:
  "(\<And>d. d \<in> set (map du_date ps) \<Longrightarrow> lo \<le> d \<and> d < hi) \<Longrightarrow>
   filter (\<lambda>p. lo \<le> du_date p \<and> du_date p < hi) ps = ps"
  by (auto simp: filter_id_conv)

lemma type_points_interval_block:
  assumes s: "sorted (map r_date (pre @ a # b # post))"
  shows "filter (\<lambda>p. r_date a \<le> du_date p \<and> du_date p < r_date b)
           (projr (type_points t (pre @ a # b # post))) = projr (interval_points t a b)"
proof -
  have s1: "sorted (map r_date (pre @ [a]))" and s2: "sorted (map r_date (b # post))"
    using s by (auto simp: sorted_append)
  have d1: "map du_date (projr (type_points t (pre @ [a]))) = [r_date (hd (pre @ [a]))..r_date a - 1]"
    using type_points_dates[OF s1, of t] by simp
  have d2: "map du_date (projr (type_points t (b # post))) = [r_date b..r_date (last (b # post)) - 1]"
    using type_points_dates[OF s2, of t] by simp
  have f1: "filter (\<lambda>p. r_date a \<le> du_date p \<and> du_date p < r_date b)
              (projr (type_points t (pre @ [a]))) = []"
    by (rule filter_dates_empty) (simp add: d1)
  have f3: "filter (\<lambda>p. r_date a \<le> du_date p \<and> du_date p < r_date b)
              (projr (type_points t (b # post))) = []"
    by (rule filter_dates_empty) (simp add: d2)
  have f2: "filter (\<lambda>p. r_date a \<le> du_date p \<and> du_date p < r_date b)
              (projr (interval_points t a b)) = projr (interval_points t a b)"
    by (rule filter_dates_all) (simp add: interval_points_dates)
  show ?thesis
    by (simp only: type_points_append filter_append f1 f2 f3 append_Nil append_Nil2)
qed

lemma daily_usage_data_interval_block:
  assumes "type_df df t = pre @ a # b # post"
  shows "filter (\<lambda>p. du_type p = t \<and> r_date a \<le> du_date p \<and> du_date p < r_date b)
           (projr (daily_usage_data df)) = projr (interval_points t a b)"
proof -
  have "filter (\<lambda>p. du_type p = t \<and> r_date a \<le> du_date p \<and> du_date p < r_date b)
           (projr (daily_usage_data df))
      = filter (\<lambda>p. r_date a \<le> du_date p \<and> du_date p < r_date b)
           (filter (\<lambda>p. du_type p = t) (projr (daily_usage_data df)))"
    by (simp add: conj_commute)
  also have "\<dots> = filter (\<lambda>p. r_date a \<le> du_date p \<and> du_date p < r_date b)
           (projr (type_points t (pre @ a # b # post)))"
    by (simp only: daily_usage_data_filter assms)
  also have "\<dots> = projr (interval_points t a b)"
    using sorted_type_df[of df t] by (intro type_points_interval_block) (simp only: assms)
  finally show ?thesis .
qed



lemma count_upto:
  "length (filter (\<lambda>x. x = d) [a..b - 1]) = (if a \<le> d \<and> d < b then 1 else 0)" for d :: int
proof -
  have "length (filter (\<lambda>x. x = d) [a..b - 1]) = card ({x. x = d} \<inter> set [a..b - 1])"
    by (simp add: distinct_length_filter)
  also have "{x. x = d} \<inter> set [a..b - 1] = (if a \<le> d \<and> d < b then {d} else {})"
    by auto
  finally show ?thesis by simp
qed




text \<open>
  Claim C4. For a type with at least two readings, the dates of its entries in
  \<open>daily_usage_data\<close> are the days from the first reading's date up to, and without,
  the last reading's date, in order and each exactly once; a type with fewer than two
  readings has no entries.
\<close>

theorem one_point_per_day:
  "\<exists>ps. daily_usage_data df = Inr ps \<and>
     (length (type_df df t) \<ge> 2 \<longrightarrow>
        map du_date (filter (\<lambda>p. du_type p = t) ps) =
          [r_date (hd (type_df df t))..r_date (last (type_df df t)) - 1] \<and>
        (\<forall>d. length (filter (\<lambda>p. du_type p = t \<and> du_date p = d) ps) =
              (if r_date (hd (type_df df t)) \<le> d \<and> d < r_date (last (type_df df t))
               then 1 else 0))) \<and>
     (length (type_df df t) < 2 \<longrightarrow> filter (\<lambda>p. du_type p = t) ps = [])"
proof -
  obtain ps where ps: "daily_usage_data df = Inr ps"
    using daily_usage_data_total by blast
  let ?tps = "filter (\<lambda>p. du_type p = t) ps"
  have tps: "?tps = projr (type_points t (type_df df t))"
    using daily_usage_data_filter[of t df] by (simp add: ps)
  have few: "?tps = []" if "length (type_df df t) < 2"
  proof (cases "type_df df t")
    case Nil
    then show ?thesis by (simp add: tps)
  next
    case (Cons r rs)
    with that have "rs = []" by simp
    with Cons show ?thesis by (simp add: tps)
  qed
  have many: "map du_date ?tps = [r_date (hd (type_df df t))..r_date (last (type_df df t)) - 1]"
    if "length (type_df df t) \<ge> 2"
  proof -
    from that have "type_df df t \<noteq> []" by auto
    from type_points_dates[OF sorted_type_df this] show ?thesis by (simp only: tps)
  qed
  have once: "length (filter (\<lambda>p. du_type p = t \<and> du_date p = d) ps) =
              (if r_date (hd (type_df df t)) \<le> d \<and> d < r_date (last (type_df df t)) then 1 else 0)"
    if "length (type_df df t) \<ge> 2" for d
  proof -
    have "filter (\<lambda>p. du_type p = t \<and> du_date p = d) ps = filter (\<lambda>p. du_date p = d) ?tps"
      by (simp add: conj_commute)
    then have "length (filter (\<lambda>p. du_type p = t \<and> du_date p = d) ps) =
          length (filter (\<lambda>x. x = d) (map du_date ?tps))"
      by (simp add: filter_map o_def)
    then show ?thesis by (simp only: many[OF that] count_upto)
  qed
  from ps few many once show ?thesis by blast
qed

text \<open>The January readings cover days 19723 to 19752; there is no reading of type solar.\<close>

theorem one_point_per_day_witness:
  "length (type_df [jan_last, jan_first] ''anytime'') \<ge> 2 \<and>
   length (type_df [jan_last, jan_first] ''solar'') < 2 \<and>
   (\<exists>ps. daily_usage_data [jan_last, jan_first] = Inr ps \<and>
      map du_date (filter (\<lambda>p. du_type p = ''anytime'') ps) = [19723..19752] \<and>
      length (filter (\<lambda>p. du_type p = ''anytime'' \<and> du_date p = 19740) ps) = 1 \<and>
      length (filter (\<lambda>p. du_type p = ''anytime'' \<and> du_date p = 19753) ps) = 0 \<and>
      filter (\<lambda>p. du_type p = ''solar'') ps = [])"
proof -
  have a: "type_df [jan_last, jan_first] ''anytime'' = [jan_first, jan_last]"
    by (simp add: type_df_def jan_first_def jan_last_def)
  have s: "type_df [jan_last, jan_first] ''solar'' = []"
    by (simp add: type_df_def jan_first_def jan_last_def)
  obtain ps where ps: "daily_usage_data [jan_last, jan_first] = Inr ps"
    using one_point_per_day[of "[jan_last, jan_first]" "''anytime''"] by blast
  have anytime: "map du_date (filter (\<lambda>p. du_type p = ''anytime'') ps) =
        [r_date jan_first..r_date jan_last - 1] \<and>
      (\<forall>d. length (filter (\<lambda>p. du_type p = ''anytime'' \<and> du_date p = d) ps) =
        (if r_date jan_first \<le> d \<and> d < r_date jan_last then 1 else 0))"
    using one_point_per_day[of "[jan_last, jan_first]" "''anytime''"]
    unfolding a ps by simp
  then have dates: "map du_date (filter (\<lambda>p. du_type p = ''anytime'') ps) = [19723..19753 - 1]"
    and count: "length (filter (\<lambda>p. du_type p = ''anytime'' \<and> du_date p = d) ps) =
      (if 19723 \<le> d \<and> d < 19753 then 1 else 0)" for d
    by (simp_all add: jan_first_def jan_last_def del: upto_rec_numeral)
  have solar: "filter (\<lambda>p. du_type p = ''solar'') ps = []"
    using one_point_per_day[of "[jan_last, jan_first]" "''solar''"]
    unfolding s ps by simp
  have "[19723..19753 - 1] = [19723..19752::int]" by simp
  with dates count[of 19740] count[of 19753] solar ps show ?thesis
    by (simp add: a s del: upto_rec_numeral)
qed

text \<open>
  Claim C6. For two consecutive readings with the same date the daily average is 0,
  obtained without a division, and no entry is appended; in general the division is
  evaluated only for a positive number of days, so that neither the loop body nor the
  whole interpolation ever ends in \<open>ZeroDivisionError\<close>.
\<close>

theorem zero_span_no_division:
  "(r_date prev = r_date cur \<longrightarrow>
      daily_avg_of (r_reading cur - r_reading prev) (r_date cur - r_date prev) = Inr 0 \<and>
      interval_points t prev cur = Inr []) \<and>
   daily_avg_of reading_diff days_diff =
     Inr (if days_diff > 0 then reading_diff / of_int days_diff else 0) \<and>
   (\<exists>ps. interval_points t prev cur = Inr ps) \<and>
   (\<exists>ps. daily_usage_data df = Inr ps)"
  by (simp add: daily_avg_of_def py_div_def interval_points_Inr daily_usage_data_total)

text \<open>Two readings on day 19723.\<close>

theorem zero_span_no_division_witness:
  "r_date jan_first = r_date jan_first_again \<and>
   daily_avg_of (r_reading jan_first_again - r_reading jan_first)
     (r_date jan_first_again - r_date jan_first) = Inr 0 \<and>
   interval_points ''anytime'' jan_first jan_first_again = Inr []"
  using zero_span_no_division[of jan_first jan_first_again "''anytime''" 0 0 "[]"]
  by (simp add: jan_first_def jan_first_again_def)

text \<open>
  Claim C9. When two consecutive rows \<open>r1\<close>, \<open>r2\<close> of a type have the same date, the
  interpolation does not fail, no row is dropped, the pair \<open>(r1, r2)\<close> yields no entry,
  and the entries of the interval up to the next row \<open>r3\<close> are computed from the value
  of \<open>r2\<close>, the later of the two rows in sorted order.
\<close>

theorem duplicate_dates_keep_later_value:
  assumes "type_df df t = pre @ r1 # r2 # r3 # post"
    and "r_date r1 = r_date r2"
  shows "\<exists>ps. daily_usage_data df = Inr ps \<and>
           mset (type_df df t) = mset (filter (\<lambda>r. r_type r = t) df) \<and>
           interval_points t r1 r2 = Inr [] \<and>
           filter (\<lambda>p. du_type p = t \<and> r_date r2 \<le> du_date p \<and> du_date p < r_date r3) ps =
             map (\<lambda>d. \<lparr>du_date = d, du_type = t,
                        du_usage = (r_reading r3 - r_reading r2) / of_int (r_date r3 - r_date r2)\<rparr>)
                 [r_date r2..r_date r3 - 1]"
proof -
  obtain ps where ps: "daily_usage_data df = Inr ps"
    using daily_usage_data_total by blast
  have split: "type_df df t = (pre @ [r1]) @ r2 # r3 # post"
    using assms(1) by simp
  have "filter (\<lambda>p. du_type p = t \<and> r_date r2 \<le> du_date p \<and> du_date p < r_date r3) ps =
          projr (interval_points t r2 r3)"
    using daily_usage_data_interval_block[OF split] by (simp add: ps)
  also have "\<dots> = map (\<lambda>d. \<lparr>du_date = d, du_type = t,
                        du_usage = (r_reading r3 - r_reading r2) / of_int (r_date r3 - r_date r2)\<rparr>)
                 [r_date r2..r_date r3 - 1]"
    by (simp add: interval_points_Inr)
  finally have later: "filter (\<lambda>p. du_type p = t \<and> r_date r2 \<le> du_date p \<and> du_date p < r_date r3) ps =
      map (\<lambda>d. \<lparr>du_date = d, du_type = t,
                 du_usage = (r_reading r3 - r_reading r2) / of_int (r_date r3 - r_date r2)\<rparr>)
          [r_date r2..r_date r3 - 1]" .
  have none: "interval_points t r1 r2 = Inr []"
    using assms(2) by (simp add: interval_points_Inr)
  have kept: "mset (type_df df t) = mset (filter (\<lambda>r. r_type r = t) df)"
    by (simp add: type_df_def)
  from ps kept none later show ?thesis by blast
qed

text \<open>Readings 1000 and 1010 on day 19723, then 1300 on day 19753: the 30 days share
  \<open>1300 - 1010\<close>.\<close>

theorem duplicate_dates_keep_later_value_witness:
  "type_df [jan_first, jan_first_again, jan_last] ''anytime'' =
     [] @ jan_first # jan_first_again # jan_last # [] \<and>
   r_date jan_first = r_date jan_first_again \<and>
   (\<exists>ps. daily_usage_data [jan_first, jan_first_again, jan_last] = Inr ps \<and>
      interval_points ''anytime'' jan_first jan_first_again = Inr [] \<and>
      filter (\<lambda>p. du_type p = ''anytime'' \<and> 19723 \<le> du_date p \<and> du_date p < 19753) ps =
        map (\<lambda>d. \<lparr>du_date = d, du_type = ''anytime'', du_usage = 290 / 30\<rparr>) [19723..19752])"
proof -
  have a: "type_df [jan_first, jan_first_again, jan_last] ''anytime'' =
     [] @ jan_first # jan_first_again # jan_last # []"
    by (simp add: type_df_def jan_first_def jan_last_def jan_first_again_def)
  have b: "r_date jan_first = r_date jan_first_again"
    by (simp add: jan_first_def jan_first_again_def)
  show ?thesis
    using duplicate_dates_keep_later_value[OF a b] a b
    by (simp add: jan_first_def jan_last_def jan_first_again_def)
qed

subsection \<open>Reading the file\<close>




























lemmas parse_defs =
  clean_reading_def str_replace_comma_def str_strip_def is_space_def float_of_str_def
  strip_sign_def number_def digitpart_def is_digit_def exponent_def nat_of_digits_def
  digit_val_def to_datetime_def day_field_def month_field_def year_field_def
  month_length_def days_from_civil_def is_leap_def


subsection \<open>Monthly totals\<close>

lemma sum_filter_disj:
  "\<forall>p\<in>set xs. \<not> (A p \<and> B p) \<Longrightarrow>
   sum_list (map u (filter (\<lambda>p. A p \<or> B p) xs)) =
     sum_list (map u (filter A xs)) + (sum_list (map u (filter B xs)) :: real)"
  by (induction xs) auto

lemma sum_groups:
  "distinct ks \<Longrightarrow>
   sum_list (map (\<lambda>k. sum_list (map u (filter (\<lambda>p. key p = k) xs))) ks) =
     (sum_list (map u (filter (\<lambda>p. key p \<in> set ks) xs)) :: real)"
proof (induction ks)
  case Nil
  then show ?case by simp
next
  case (Cons k ks)
  have "sum_list (map u (filter (\<lambda>p. key p = k \<or> key p \<in> set ks) xs)) =
      sum_list (map u (filter (\<lambda>p. key p = k) xs)) +
      sum_list (map u (filter (\<lambda>p. key p \<in> set ks) xs))"
    using Cons.prems by (intro sum_filter_disj) auto
  with Cons show ?case by simp
qed

lemma sum_list_sort_key:
  "sum_list (map f (filter P (sort_key g xs))) = (sum_list (map f (filter P xs)) :: real)"
proof -
  have "mset (map f (filter P (sort_key g xs))) = mset (map f (filter P xs))"
    by simp
  then show ?thesis by (metis sum_mset_sum_list)
qed

lemma groupby_sum_type:
  "sum_list (map (\<lambda>(m, t', u). u) (filter (\<lambda>(m, t', u). t' = t) (groupby_sum daily))) =
     sum_list (map du_usage (filter (\<lambda>p. du_type p = t) daily))"
proof -
  define key where "key = (\<lambda>p::daily_usage. (year_month (du_date p), du_type p))"
  define K where "K = sort (remdups (map key daily))"
  define Kt where "Kt = filter (\<lambda>k. snd k = t) K"
  have g: "groupby_sum daily =
      map (\<lambda>k. (fst k, snd k, sum_list (map du_usage (filter (\<lambda>p. key p = k) daily)))) K"
    unfolding groupby_sum_def K_def key_def
    by (intro map_cong) (auto simp: case_prod_beta)
  have "map (\<lambda>(m, t', u). u) (filter (\<lambda>(m, t', u). t' = t) (groupby_sum daily)) =
      map (\<lambda>k. sum_list (map du_usage (filter (\<lambda>p. key p = k) daily))) Kt"
    unfolding g Kt_def by (simp add: filter_map o_def case_prod_beta)
  then have "sum_list (map (\<lambda>(m, t', u). u) (filter (\<lambda>(m, t', u). t' = t) (groupby_sum daily))) =
      sum_list (map du_usage (filter (\<lambda>p. key p \<in> set Kt) daily))"
    using sum_groups[of Kt du_usage key daily] by (simp add: Kt_def K_def)
  also have "filter (\<lambda>p. key p \<in> set Kt) daily = filter (\<lambda>p. du_type p = t) daily"
    by (intro filter_cong) (auto simp: Kt_def K_def key_def)
  finally show ?thesis .
qed

lemma filter_month_single:
  "distinct (map fst dpm) \<Longrightarrow> m \<in> fst ` set dpm \<Longrightarrow>
   \<exists>n. filter (\<lambda>(m', n). m' = m) dpm = [(m, n)]"
proof (induction dpm)
  case Nil
  then show ?case by simp
next
  case (Cons x dpm)
  show ?case
  proof (cases "fst x = m")
    case True
    with Cons.prems(1) have "m \<notin> fst ` set dpm" by auto
    then have "filter (\<lambda>(m', n). m' = m) dpm = []"
      by (force simp: filter_empty_conv)
    with True show ?thesis by (cases x) auto
  next
    case False
    with Cons.prems have "distinct (map fst dpm)" "m \<in> fst ` set dpm" by auto
    from Cons.IH[OF this] False show ?thesis by (cases x) auto
  qed
qed

lemma merge_days_totals:
  assumes "distinct (map fst dpm)" and "\<forall>row\<in>set totals. fst row \<in> fst ` set dpm"
  shows "map (\<lambda>row. (mt_month row, mt_type row, mt_total row)) (merge_days totals dpm) = totals"
  using assms(2)
proof (induction totals)
  case Nil
  then show ?case by (simp add: merge_days_def)
next
  case (Cons row totals)
  obtain m t u where row: "row = (m, t, u)" by (cases row)
  with Cons.prems have "m \<in> fst ` set dpm" by simp
  from filter_month_single[OF assms(1) this] obtain n where
    n: "filter (\<lambda>(m', n). m' = m) dpm = [(m, n)]" by blast
  have "merge_days (row # totals) dpm =
      \<lparr>mt_month = m, mt_type = t, mt_total = u, mt_days = n\<rparr> # merge_days totals dpm"
    by (simp add: merge_days_def row n)
  moreover have "map (\<lambda>row. (mt_month row, mt_type row, mt_total row)) (merge_days totals dpm) = totals"
    using Cons by simp
  ultimately show ?case by (simp add: row)
qed

lemma days_per_month_keys:
  "distinct (map fst (days_per_month daily))"
  "fst ` set (days_per_month daily) = (\<lambda>p. year_month (du_date p)) ` set daily"
  by (simp_all add: days_per_month_def o_def image_image)

lemma groupby_sum_months:
  "row \<in> set (groupby_sum daily) \<Longrightarrow> fst row \<in> (\<lambda>p. year_month (du_date p)) ` set daily"
  by (auto simp: groupby_sum_def)

lemma monthly_total_rows:
  "map (\<lambda>row. (mt_month row, mt_type row, mt_total row)) (monthly_total daily) =
     sort_key (\<lambda>(m, t, u). m) (groupby_sum daily)"
  unfolding monthly_total_def
proof (rule merge_days_totals)
  show "distinct (map fst (days_per_month daily))" by (rule days_per_month_keys)
  show "\<forall>row\<in>set (sort_key (\<lambda>(m, t, u). m) (groupby_sum daily)).
          fst row \<in> fst ` set (days_per_month daily)"
    using groupby_sum_months[of _ daily] by (simp add: days_per_month_keys)
qed

lemma monthly_total_type:
  "sum_list (map mt_total (filter (\<lambda>row. mt_type row = t) (monthly_total daily))) =
     sum_list (map du_usage (filter (\<lambda>p. du_type p = t) daily))"
proof -
  let ?triple = "\<lambda>row. (mt_month row, mt_type row, mt_total row)"
  have "map mt_total (filter (\<lambda>row. mt_type row = t) (monthly_total daily)) =
      map (\<lambda>(m, t', u). u) (filter (\<lambda>(m, t', u). t' = t) (map ?triple (monthly_total daily)))"
    by (simp add: filter_map o_def)
  also have "\<dots> = map (\<lambda>(m, t', u). u) (filter (\<lambda>(m, t', u). t' = t)
      (sort_key (\<lambda>(m, t, u). m) (groupby_sum daily)))"
    by (simp only: monthly_total_rows)
  finally have "sum_list (map mt_total (filter (\<lambda>row. mt_type row = t) (monthly_total daily))) =
      sum_list (map (\<lambda>(m, t', u). u) (filter (\<lambda>(m, t', u). t' = t) (groupby_sum daily)))"
    by (simp only: sum_list_sort_key)
  then show ?thesis by (simp only: groupby_sum_type)
qed

text \<open>
  Claim C5. For every type, the monthly totals of the type, summed over all months,
  equal the sum of the daily usage of the type: for the rows the group-by of line 119
  produces, for the frame \<open>monthly_total\<close> after the merge of line 129, and in
  particular for the daily usage that the interpolation produces from a frame.
\<close>

theorem monthly_totals_sum_to_daily_total:
  "sum_list (map (\<lambda>(m, t', u). u) (filter (\<lambda>(m, t', u). t' = t) (groupby_sum daily))) =
     sum_list (map du_usage (filter (\<lambda>p. du_type p = t) daily)) \<and>
   sum_list (map mt_total (filter (\<lambda>row. mt_type row = t) (monthly_total daily))) =
     sum_list (map du_usage (filter (\<lambda>p. du_type p = t) daily)) \<and>
   (\<exists>ps. daily_usage_data df = Inr ps \<and>
      sum_list (map mt_total (filter (\<lambda>row. mt_type row = t) (monthly_total ps))) =
        sum_list (map du_usage (filter (\<lambda>p. du_type p = t) ps)))"
  using daily_usage_data_total[of df]
  by (auto simp only: groupby_sum_type monthly_total_type)

subsection \<open>Annual projection, costs and the script\<close>

lemma annual_usage_loop_Inr:
  "days \<noteq> 0 \<Longrightarrow>
   annual_usage_loop df days ts au =
     Inr (\<lambda>t. if t \<in> set ts \<and> length (type_df df t) \<ge> 2
             then Some ((r_reading (last (type_df df t)) - r_reading (hd (type_df df t)))
                        / of_int days * 365)
             else au t)"
proof (induction ts arbitrary: au)
  case Nil
  then show ?case by simp
next
  case (Cons t ts)
  show ?case
  proof (cases "length (type_df df t) \<ge> 2")
    case True
    then show ?thesis
      using Cons.prems Cons.IH[OF Cons.prems]
      by (auto simp: Let_def py_div_def fun_eq_iff)
  next
    case False
    then show ?thesis
      using Cons.prems Cons.IH[OF Cons.prems]
      by (auto simp: Let_def fun_eq_iff)
  qed
qed

lemma fold_min_Min: "fold min ds (d::int) = Min (set (d # ds))"
  by (rule Min.set_eq_fold[symmetric])

lemma fold_max_Max: "fold max ds (d::int) = Max (set (d # ds))"
  by (rule Max.set_eq_fold[symmetric])

lemma calculate_annual_costs_nonempty:
  assumes "df \<noteq> []"
  shows "calculate_annual_costs df a c s sc csc =
     (let days = Max (r_date ` set df) - Min (r_date ` set df) in
      if days = 0 then Inr None
      else Inr (Some (cost_summary
             (\<lambda>t. if t \<in> r_type ` set df \<and> length (type_df df t) \<ge> 2
                  then Some ((r_reading (last (type_df df t)) - r_reading (hd (type_df df t)))
                             / of_int days * 365)
                  else None)
             a c s sc csc (Some days))))"
proof -
  obtain r rs where df: "df = r # rs" using assms by (cases df) auto
  have md: "map r_date df = r_date r # map r_date rs" by (simp add: df)
  have "set (r_date r # map r_date rs) = r_date ` set df" by (simp add: df)
  then have mm: "fold min (map r_date rs) (r_date r) = Min (r_date ` set df)"
    "fold max (map r_date rs) (r_date r) = Max (r_date ` set df)"
    by (simp_all only: fold_min_Min fold_max_Max)
  let ?days = "Max (r_date ` set df) - Min (r_date ` set df)"
  have calc: "calculate_annual_costs df a c s sc csc =
      (if ?days = 0 then Inr None
       else (case annual_usage_loop df ?days (unique (map r_type df)) Map.empty of
               Inl e \<Rightarrow> Inl e
             | Inr annual_usage \<Rightarrow>
                 Inr (Some (cost_summary annual_usage a c s sc csc (Some ?days)))))"
    by (simp only: calculate_annual_costs_def md list.case mm Let_def)
  show ?thesis
  proof (cases "?days = 0")
    case True
    then show ?thesis by (simp add: calc Let_def)
  next
    case False
    have types: "set (unique (map r_type df)) = r_type ` set df"
      by (simp add: set_unique)
    show ?thesis
      using False
      by (simp only: calc Let_def if_False annual_usage_loop_Inr[OF False] sum.case types)
  qed
qed

lemma type_df_nonempty_type: "type_df df t \<noteq> [] \<Longrightarrow> t \<in> r_type ` set df"
proof (rule ccontr)
  assume "type_df df t \<noteq> []" and "t \<notin> r_type ` set df"
  moreover from this(2) have "filter (\<lambda>r. r_type r = t) df = []"
    by (auto simp: filter_empty_conv)
  ultimately show False by (simp add: type_df_def)
qed

lemma dict_get_projection:
  "dict_get (\<lambda>t. if t \<in> r_type ` set df \<and> length (type_df df t) \<ge> 2
                  then Some ((r_reading (last (type_df df t)) - r_reading (hd (type_df df t)))
                             / of_int (Max (r_date ` set df) - Min (r_date ` set df)) * 365)
                  else None) t = spec_annual_projection df t"
proof (cases "length (type_df df t) \<ge> 2")
  case True
  then have "type_df df t \<noteq> []" by auto
  then have "t \<in> r_type ` set df" by (rule type_df_nonempty_type)
  with True show ?thesis by (simp add: dict_get_def spec_annual_projection_def)
next
  case False
  then show ?thesis by (simp add: dict_get_def spec_annual_projection_def)
qed

text \<open>
  Claim C3. On a frame with rows, \<open>calculate_annual_costs\<close> returns \<open>None\<close> when the
  first and the last date of the frame coincide, without dividing; otherwise it returns
  a result whose usage of each reported type is
  \<open>(last reading - first reading) / days * 365\<close> when the type has at least two
  readings and 0 when it has fewer.
\<close>

theorem annual_projection:
  assumes "df \<noteq> []"
  shows "(Max (r_date ` set df) - Min (r_date ` set df) = 0 \<longrightarrow>
            calculate_annual_costs df a c s sc csc = Inr None) \<and>
         (Max (r_date ` set df) - Min (r_date ` set df) \<noteq> 0 \<longrightarrow>
            (\<exists>r. calculate_annual_costs df a c s sc csc = Inr (Some r) \<and>
               ac_days_in_data r = Some (Max (r_date ` set df) - Min (r_date ` set df)) \<and>
               ac_anytime_usage r = spec_annual_projection df ''anytime'' \<and>
               ac_cl_usage r = spec_annual_projection df ''controlled load'' \<and>
               ac_solar_usage r = spec_annual_projection df ''solar''))"
  by (simp add: calculate_annual_costs_nonempty[OF assms] Let_def cost_summary_def
      dict_get_projection)

text \<open>The January readings project to 3650 kWh; two readings on one day give no result.\<close>

theorem annual_projection_witness:
  "[jan_last, jan_first] \<noteq> [] \<and>
   Max (r_date ` set [jan_last, jan_first]) - Min (r_date ` set [jan_last, jan_first]) = 30 \<and>
   (\<exists>r. calculate_annual_costs [jan_last, jan_first] 25 18 8 (12 / 10) (5 / 10) = Inr (Some r) \<and>
      ac_days_in_data r = Some 30 \<and>
      ac_anytime_usage r = 3650 \<and> ac_cl_usage r = 0 \<and> ac_solar_usage r = 0) \<and>
   [jan_first, jan_first_again] \<noteq> [] \<and>
   Max (r_date ` set [jan_first, jan_first_again]) -
     Min (r_date ` set [jan_first, jan_first_again]) = 0 \<and>
   calculate_annual_costs [jan_first, jan_first_again] 25 18 8 (12 / 10) (5 / 10) = Inr None"
proof -
  have span: "Max (r_date ` set [jan_last, jan_first]) - Min (r_date ` set [jan_last, jan_first]) = 30"
    by (simp add: jan_first_def jan_last_def)
  have zero: "Max (r_date ` set [jan_first, jan_first_again]) -
     Min (r_date ` set [jan_first, jan_first_again]) = 0"
    by (simp add: jan_first_def jan_first_again_def)
  have a: "spec_annual_projection [jan_last, jan_first] ''anytime'' = 3650"
    unfolding spec_annual_projection_def span
    by (simp add: type_df_def jan_first_def jan_last_def)
  have b: "spec_annual_projection [jan_last, jan_first] ''controlled load'' = 0"
    "spec_annual_projection [jan_last, jan_first] ''solar'' = 0"
    unfolding spec_annual_projection_def span
    by (simp_all add: type_df_def jan_first_def jan_last_def)
  have 1: "[jan_last, jan_first] \<noteq> []" and 2: "[jan_first, jan_first_again] \<noteq> []" by simp_all
  show ?thesis
    using annual_projection[OF 1, of 25 18 8 "12 / 10" "5 / 10"]
      annual_projection[OF 2, of 25 18 8 "12 / 10" "5 / 10"]
    unfolding span zero a b
    by simp
qed

lemma calculate_annual_costs_total:
  "df \<noteq> [] \<Longrightarrow> \<exists>r. calculate_annual_costs df a c s sc csc = Inr r"
  by (simp add: calculate_annual_costs_nonempty Let_def)

lemma month_cost_Inr:
  "month_data \<noteq> [] \<Longrightarrow>
   month_cost current_plan month_data =
     Inr (usage_of_type month_data ''anytime'' * anytime_rate current_plan / 100
          + usage_of_type month_data ''controlled load'' * controlled_load_rate current_plan / 100
          + (supply_daily_charge current_plan + controlled_load_supply_daily_charge current_plan)
            * of_nat (mt_days (hd month_data))
          - usage_of_type month_data ''solar'' * solar_feed_in current_plan / 100)"
  by (cases month_data) (simp_all add: month_cost_def Let_def)

lemma monthly_costs_loop_Inr:
  "set months \<subseteq> mt_month ` set mt \<Longrightarrow>
   monthly_costs_loop current_plan mt months =
     Inr (map (\<lambda>month. (month, projr (month_cost current_plan
                                      (filter (\<lambda>row. mt_month row = month) mt)))) months)"
proof (induction months)
  case Nil
  then show ?case by simp
next
  case (Cons month months)
  then have "month \<in> mt_month ` set mt" by simp
  then have "filter (\<lambda>row. mt_month row = month) mt \<noteq> []"
    by (auto simp: filter_empty_conv)
  from month_cost_Inr[OF this, of current_plan] Cons show ?case by simp
qed

lemma monthly_costs_Inr:
  "monthly_costs current_plan mt =
     Inr (map (\<lambda>month. (month, projr (month_cost current_plan
                                      (filter (\<lambda>row. mt_month row = month) mt))))
              (unique (map mt_month mt)))"
  unfolding monthly_costs_def by (intro monthly_costs_loop_Inr) (simp add: set_unique)

lemma monthly_costs_formula:
  "monthly_costs current_plan mt =
     Inr (map (\<lambda>month. (month,
                 usage_of_type (filter (\<lambda>row. mt_month row = month) mt) ''anytime''
                   * anytime_rate current_plan / 100
                 + usage_of_type (filter (\<lambda>row. mt_month row = month) mt) ''controlled load''
                   * controlled_load_rate current_plan / 100
                 + (supply_daily_charge current_plan
                    + controlled_load_supply_daily_charge current_plan)
                   * of_nat (mt_days (hd (filter (\<lambda>row. mt_month row = month) mt)))
                 - usage_of_type (filter (\<lambda>row. mt_month row = month) mt) ''solar''
                   * solar_feed_in current_plan / 100))
              (unique (map mt_month mt)))"
proof -
  have "filter (\<lambda>row. mt_month row = month) mt \<noteq> []"
    if "month \<in> set (unique (map mt_month mt))" for month
    using that by (auto simp: set_unique filter_empty_conv)
  then show ?thesis
    unfolding monthly_costs_Inr
    by (auto simp: month_cost_Inr intro!: map_cong)
qed

text \<open>
  Claim C2. Both places that price usage follow the same formulas: each usage times
  its rate divided by 100, the two daily charges times the number of days (365 in the
  annual estimate, the days of the month in the monthly annotation), and the total
  as the costs plus the supply cost minus the solar credit.
\<close>

theorem cost_formulas:
  "ac_anytime_cost (cost_summary annual_usage a c s sc csc days) =
     dict_get annual_usage ''anytime'' * a / 100 \<and>
   ac_cl_cost (cost_summary annual_usage a c s sc csc days) =
     dict_get annual_usage ''controlled load'' * c / 100 \<and>
   ac_solar_credit (cost_summary annual_usage a c s sc csc days) =
     dict_get annual_usage ''solar'' * s / 100 \<and>
   ac_supply_cost (cost_summary annual_usage a c s sc csc days) = (sc + csc) * 365 \<and>
   ac_total_cost (cost_summary annual_usage a c s sc csc days) =
     dict_get annual_usage ''anytime'' * a / 100 + dict_get annual_usage ''controlled load'' * c / 100
     + (sc + csc) * 365 - dict_get annual_usage ''solar'' * s / 100 \<and>
   (\<forall>r. calculate_annual_costs df a c s sc csc = Inr (Some r) \<longrightarrow>
      ac_anytime_cost r = ac_anytime_usage r * a / 100 \<and>
      ac_cl_cost r = ac_cl_usage r * c / 100 \<and>
      ac_solar_credit r = ac_solar_usage r * s / 100 \<and>
      ac_supply_cost r = (sc + csc) * 365 \<and>
      ac_total_cost r = ac_anytime_cost r + ac_cl_cost r + ac_supply_cost r - ac_solar_credit r) \<and>
   monthly_costs current_plan mt =
     Inr (map (\<lambda>month. (month,
                 usage_of_type (filter (\<lambda>row. mt_month row = month) mt) ''anytime''
                   * anytime_rate current_plan / 100
                 + usage_of_type (filter (\<lambda>row. mt_month row = month) mt) ''controlled load''
                   * controlled_load_rate current_plan / 100
                 + (supply_daily_charge current_plan
                    + controlled_load_supply_daily_charge current_plan)
                   * of_nat (mt_days (hd (filter (\<lambda>row. mt_month row = month) mt)))
                 - usage_of_type (filter (\<lambda>row. mt_month row = month) mt) ''solar''
                   * solar_feed_in current_plan / 100))
              (unique (map mt_month mt)))"
proof -
  have annual: "ac_anytime_cost r = ac_anytime_usage r * a / 100 \<and>
      ac_cl_cost r = ac_cl_usage r * c / 100 \<and>
      ac_solar_credit r = ac_solar_usage r * s / 100 \<and>
      ac_supply_cost r = (sc + csc) * 365 \<and>
      ac_total_cost r = ac_anytime_cost r + ac_cl_cost r + ac_supply_cost r - ac_solar_credit r"
    if "calculate_annual_costs df a c s sc csc = Inr (Some r)" for r
  proof -
    from that obtain au d where "r = cost_summary au a c s sc csc d"
      by (auto simp: calculate_annual_costs_def Let_def split: list.splits if_splits sum.splits)
    then show ?thesis by (simp add: cost_summary_def Let_def)
  qed
  have summary: "ac_anytime_cost (cost_summary annual_usage a c s sc csc days) =
       dict_get annual_usage ''anytime'' * a / 100 \<and>
     ac_cl_cost (cost_summary annual_usage a c s sc csc days) =
       dict_get annual_usage ''controlled load'' * c / 100 \<and>
     ac_solar_credit (cost_summary annual_usage a c s sc csc days) =
       dict_get annual_usage ''solar'' * s / 100 \<and>
     ac_supply_cost (cost_summary annual_usage a c s sc csc days) = (sc + csc) * 365 \<and>
     ac_total_cost (cost_summary annual_usage a c s sc csc days) =
       dict_get annual_usage ''anytime'' * a / 100 + dict_get annual_usage ''controlled load'' * c / 100
       + (sc + csc) * 365 - dict_get annual_usage ''solar'' * s / 100"
    by (simp add: cost_summary_def Let_def)
  from summary annual monthly_costs_formula[of current_plan mt] show ?thesis by blast
qed

lemma january_annual:
  "\<exists>r. calculate_annual_costs [jan_last, jan_first] 25 18 8 (12 / 10) (5 / 10) = Inr (Some r) \<and>
       ac_anytime_usage r = 3650 \<and> ac_cl_usage r = 0 \<and> ac_solar_usage r = 0"
proof -
  have span: "Max (r_date ` set [jan_last, jan_first]) - Min (r_date ` set [jan_last, jan_first]) = 30"
    by (simp add: jan_first_def jan_last_def)
  have "[jan_last, jan_first] \<noteq> []" by simp
  from calculate_annual_costs_nonempty[OF this, of 25 18 8 "12 / 10" "5 / 10"]
  show ?thesis
    unfolding span
    by (simp add: Let_def cost_summary_def dict_get_def type_df_def jan_first_def jan_last_def)
qed

text \<open>300 kWh on 30 days under the default plan cost 75 + 51 = 126; the January readings
  cost 912.50 + 620.50 = 1533 a year.\<close>

theorem cost_formulas_witness:
  "monthly_costs (load_current_plan None) january_month = Inr [(''2024-01'', 126)] \<and>
   (\<exists>r. calculate_annual_costs [jan_last, jan_first] 25 18 8 (12 / 10) (5 / 10) = Inr (Some r) \<and>
      ac_anytime_cost r = 9125 / 10 \<and> ac_cl_cost r = 0 \<and> ac_solar_credit r = 0 \<and>
      ac_supply_cost r = 6205 / 10 \<and> ac_total_cost r = 1533)"
proof -
  note formulas = cost_formulas[of Map.empty 25 18 8 "12 / 10" "5 / 10" None "[jan_last, jan_first]"
        "load_current_plan None" january_month]
  obtain r where r: "calculate_annual_costs [jan_last, jan_first] 25 18 8 (12 / 10) (5 / 10) = Inr (Some r)"
    and u: "ac_anytime_usage r = 3650" "ac_cl_usage r = 0" "ac_solar_usage r = 0"
    using january_annual by blast
  have "ac_anytime_cost r = 9125 / 10 \<and> ac_cl_cost r = 0 \<and> ac_solar_credit r = 0 \<and>
      ac_supply_cost r = 6205 / 10 \<and> ac_total_cost r = 1533"
    using formulas r u by simp
  moreover have "monthly_costs (load_current_plan None) january_month = Inr [(''2024-01'', 126)]"
    unfolding formulas[THEN conjunct2, THEN conjunct2, THEN conjunct2, THEN conjunct2,
        THEN conjunct2, THEN conjunct2]
    by (simp add: january_month_def load_current_plan_def usage_of_type_def)
  ultimately show ?thesis using r by blast
qed

text \<open>
  Claim C10. The monthly cost annotations of a run are a function of the configuration
  file and the uploaded file alone: two runs that differ only in the values of the
  input widgets end in the same error or show the same monthly costs, namely the
  costs computed from the daily usage of the uploaded readings under the plan that
  \<open>load_current_plan\<close> returns.
\<close>

theorem monthly_costs_ignore_session_inputs:
  "map_sum id out_monthly_costs (app config_file uploaded_file inputs) =
     map_sum id out_monthly_costs (app config_file uploaded_file inputs') \<and>
   (\<forall>df daily. load_data uploaded_file = Inr df \<and> df \<noteq> [] \<and> daily_usage_data df = Inr daily \<longrightarrow>
      map_sum id out_monthly_costs (app config_file uploaded_file inputs) =
        (if daily \<noteq> [] then monthly_costs (load_current_plan config_file) (monthly_total daily)
         else Inr []))"
proof -
  have shown: "map_sum id out_monthly_costs (app config_file uploaded_file i) =
        (if daily \<noteq> [] then monthly_costs (load_current_plan config_file) (monthly_total daily)
         else Inr [])"
    if df: "load_data uploaded_file = Inr df" and ne: "df \<noteq> []"
      and daily: "daily_usage_data df = Inr daily" for df daily i
  proof -
    obtain cur where cur: "calculate_annual_costs df (current_anytime i) (current_cl i)
        (current_solar i) (current_supply i) (current_cl_supply i) = Inr cur"
      using calculate_annual_costs_total[OF ne] by blast
    obtain comp where comp: "calculate_annual_costs df (comp_anytime i) (comp_cl i)
        (comp_solar i) (comp_supply i) (comp_cl_supply i) = Inr comp"
      using calculate_annual_costs_total[OF ne] by blast
    show ?thesis
      using ne by (simp add: app_def df daily cur comp Let_def split: sum.splits)
  qed
  have same: "map_sum id out_monthly_costs (app config_file uploaded_file inputs) =
     map_sum id out_monthly_costs (app config_file uploaded_file inputs')"
  proof (cases "load_data uploaded_file")
    case (Inl e)
    then show ?thesis by (simp add: app_def)
  next
    case (Inr df)
    show ?thesis
    proof (cases "df = []")
      case True
      with Inr show ?thesis by (simp add: app_def)
    next
      case False
      obtain daily where daily: "daily_usage_data df = Inr daily"
        using daily_usage_data_total by blast
      show ?thesis by (simp only: shown[OF Inr False daily])
    qed
  qed
  from same shown show ?thesis by blast
qed

lemma two_day_load:
  "load_data two_day_file =
     Inr [\<lparr>r_date = 19723, r_type = ''anytime'', r_reading = 1000, r_source = ''manual''\<rparr>,
          \<lparr>r_date = 19725, r_type = ''anytime'', r_reading = 1020, r_source = ''bill''\<rparr>]"
  by (simp add: two_day_file_def load_data_def fillna_manual_def parse_defs)

lemma two_day_daily:
  "daily_usage_data
     [\<lparr>r_date = 19723, r_type = ''anytime'', r_reading = 1000, r_source = ''manual''\<rparr>,
      \<lparr>r_date = 19725, r_type = ''anytime'', r_reading = 1020, r_source = ''bill''\<rparr>] =
     Inr [\<lparr>du_date = 19723, du_type = ''anytime'', du_usage = 10\<rparr>,
          \<lparr>du_date = 19724, du_type = ''anytime'', du_usage = 10\<rparr>]"
  by (simp add: daily_usage_data_def type_df_def interval_points_Inr)

lemma year_month_two_days: "year_month 19723 = ''2024-01''" "year_month 19724 = ''2024-01''"
  by code_simp+

lemma two_day_monthly:
  "monthly_total
     [\<lparr>du_date = 19723, du_type = ''anytime'', du_usage = 10\<rparr>,
      \<lparr>du_date = 19724, du_type = ''anytime'', du_usage = 10\<rparr>] =
     [\<lparr>mt_month = ''2024-01'', mt_type = ''anytime'', mt_total = 20, mt_days = 2\<rparr>]"
  by (simp add: monthly_total_def groupby_sum_def days_per_month_def merge_days_def year_month_two_days)

lemma two_day_costs:
  "monthly_costs (load_current_plan None)
     [\<lparr>mt_month = ''2024-01'', mt_type = ''anytime'', mt_total = 20, mt_days = 2\<rparr>] =
   Inr [(''2024-01'', 84 / 10)]"
  by (simp add: monthly_costs_def load_current_plan_def month_cost_def usage_of_type_def Let_def)

lemma two_day_annual:
  "calculate_annual_costs
     [\<lparr>r_date = 19723, r_type = ''anytime'', r_reading = 1000, r_source = ''manual''\<rparr>,
      \<lparr>r_date = 19725, r_type = ''anytime'', r_reading = 1020, r_source = ''bill''\<rparr>]
     a c s sc csc =
   Inr (Some \<lparr>ac_anytime_usage = 3650, ac_cl_usage = 0, ac_solar_usage = 0,
              ac_anytime_cost = 3650 * (a / 100), ac_cl_cost = 0, ac_solar_credit = 0,
              ac_supply_cost = (sc + csc) * 365,
              ac_total_cost = 3650 * (a / 100) + 0 + (sc + csc) * 365 - 0,
              ac_days_in_data = Some 2\<rparr>)"
  by (simp add: calculate_annual_costs_def Let_def py_div_def type_df_def cost_summary_def
      dict_get_def)

text \<open>Without a configuration file the two-day file costs 8.40 in January under the
  default plan, whatever the inputs; the annual figures do follow the inputs.\<close>

theorem monthly_costs_ignore_session_inputs_witness:
  "load_data two_day_file =
     Inr [\<lparr>r_date = 19723, r_type = ''anytime'', r_reading = 1000, r_source = ''manual''\<rparr>,
          \<lparr>r_date = 19725, r_type = ''anytime'', r_reading = 1020, r_source = ''bill''\<rparr>] \<and>
   daily_usage_data
     [\<lparr>r_date = 19723, r_type = ''anytime'', r_reading = 1000, r_source = ''manual''\<rparr>,
      \<lparr>r_date = 19725, r_type = ''anytime'', r_reading = 1020, r_source = ''bill''\<rparr>] =
     Inr [\<lparr>du_date = 19723, du_type = ''anytime'', du_usage = 10\<rparr>,
          \<lparr>du_date = 19724, du_type = ''anytime'', du_usage = 10\<rparr>] \<and>
   map_sum id out_monthly_costs (app None two_day_file default_inputs) =
     Inr [(''2024-01'', 84 / 10)] \<and>
   map_sum id out_monthly_costs
     (app None two_day_file (default_inputs\<lparr>current_anytime := 50, comp_supply := 2\<rparr>)) =
     Inr [(''2024-01'', 84 / 10)] \<and>
   map_sum id (\<lambda>out. map_option ac_anytime_cost (out_current_calc out))
     (app None two_day_file default_inputs) = Inr (Some (9125 / 10)) \<and>
   map_sum id (\<lambda>out. map_option ac_anytime_cost (out_current_calc out))
     (app None two_day_file (default_inputs\<lparr>current_anytime := 50, comp_supply := 2\<rparr>)) =
     Inr (Some 1825)"
proof -
  note independent = monthly_costs_ignore_session_inputs[of None two_day_file default_inputs
      "default_inputs\<lparr>current_anytime := 50, comp_supply := 2\<rparr>"]
  have "map_sum id out_monthly_costs (app None two_day_file default_inputs) =
      monthly_costs (load_current_plan None)
        (monthly_total [\<lparr>du_date = 19723, du_type = ''anytime'', du_usage = 10\<rparr>,
                        \<lparr>du_date = 19724, du_type = ''anytime'', du_usage = 10\<rparr>])"
    using independent[THEN conjunct2, rule_format, OF conjI[OF two_day_load conjI[OF _ two_day_daily]]]
    by simp
  then have first: "map_sum id out_monthly_costs (app None two_day_file default_inputs) =
      Inr [(''2024-01'', 84 / 10)]"
    by (simp only: two_day_monthly two_day_costs)
  have second: "map_sum id out_monthly_costs
      (app None two_day_file (default_inputs\<lparr>current_anytime := 50, comp_supply := 2\<rparr>)) =
      Inr [(''2024-01'', 84 / 10)]"
    using independent[THEN conjunct1] first by (simp only:)
  have run: "map_sum id (\<lambda>out. map_option ac_anytime_cost (out_current_calc out))
      (app None two_day_file inputs) = Inr (Some (3650 * (current_anytime inputs / 100)))"
    for inputs
    unfolding app_def Let_def two_day_load
    by (simp only: sum.case two_day_daily two_day_monthly two_day_costs two_day_annual) simp
  show ?thesis
    using first second two_day_load two_day_daily
    by (simp add: run default_inputs_def)
qed

end
